theory Spec2Isabelle
  imports Complex_Main "HOL-Library.Log_Nat"
begin

section \<open>Python numbers\<close>

text \<open>
  The program computes with Python \<open>float\<close>s, IEEE-754 binary64 numbers. A finite
  number is modelled by the rational it denotes (so \<open>0.0\<close> and \<open>-0.0\<close> coincide, as
  they do under Python's \<open>==\<close>), and every arithmetic operation computes the exact
  result and rounds it to the nearest double, ties to even, with gradual underflow
  (a significand of 53 bits, the least exponent \<open>-1022\<close>). An integer read from JSON
  is its own value: comparisons are exact, and the true division of two integers is
  correctly rounded in Python as well. The numbers that enter the arithmetic are taken
  to be doubles or integers that a double holds exactly. Infinities, NaN and overflow
  beyond the largest double are outside this model.
\<close>

definition ilog2 :: "rat \<Rightarrow> int" where
  \<comment> \<open>\<open>\<lfloor>log\<^sub>2 x\<rfloor>\<close> for \<open>0 < x\<close>\<close>
  "ilog2 x = (if 1 \<le> x then bitlen \<lfloor>x\<rfloor> - 1 else - bitlen (\<lceil>1 / x\<rceil> - 1))"

definition ulp_exp :: "rat \<Rightarrow> int" where
  \<comment> \<open>the exponent of the unit in the last place of the doubles around \<open>a\<close>\<close>
  "ulp_exp a = max (ilog2 a) (- 1022) - 52"

definition round_half_even :: "rat \<Rightarrow> int" where
  "round_half_even x =
     (let f = \<lfloor>x\<rfloor>; r = x - of_int f
      in if r < 1 / 2 then f else if 1 / 2 < r then f + 1 else if even f then f else f + 1)"

definition fl_round :: "rat \<Rightarrow> rat" where
  "fl_round x =
     (if x = 0 then 0
      else let u = 2 powi (ulp_exp \<bar>x\<bar>)
           in sgn x * of_int (round_half_even (\<bar>x\<bar> / u)) * u)"

definition is_double :: "rat \<Rightarrow> bool" where
  "is_double y \<longleftrightarrow> (\<exists>m k. \<bar>m\<bar> < 2 ^ 53 \<and> - 1074 \<le> k \<and> y = of_int m * 2 powi k)"

datatype py_error = KeyError | IndexError | TypeError | ZeroDivisionError | AttributeError

text \<open>
  A computation that may raise returns \<open>Inl\<close> of the error. \<open>bind_err\<close> runs the
  next statement on the value of the previous one and passes an error on unchanged.
\<close>

definition bind_err :: "py_error + 'a \<Rightarrow> ('a \<Rightarrow> py_error + 'b) \<Rightarrow> py_error + 'b" where
  "bind_err m f = (case m of Inl e \<Rightarrow> Inl e | Inr x \<Rightarrow> f x)"

definition fadd :: "rat \<Rightarrow> rat \<Rightarrow> rat" where
  "fadd a b = fl_round (a + b)"

definition fmul :: "rat \<Rightarrow> rat \<Rightarrow> rat" where
  "fmul a b = fl_round (a * b)"

definition fdiv :: "rat \<Rightarrow> rat \<Rightarrow> py_error + rat" where
  "fdiv a b = (if b = 0 then Inl ZeroDivisionError else Inr (fl_round (a / b)))"

fun py_sum :: "rat list \<Rightarrow> rat" where
  \<comment> \<open>the builtin \<open>sum\<close>: \<open>0 + x\<^sub>1 + \<dots> + x\<^sub>n\<close> from the left. (From Python 3.12 on, a
      longer sum of floats also compensates its rounding error; on a list of one
      element every version computes \<open>0 + x\<^sub>1\<close>.)\<close>
  "py_sum xs = foldl fadd 0 xs"

section \<open>Provider responses: JSON values under Python's operators\<close>

text \<open>
  \<open>response.json()\<close> may return any JSON value; the code subscripts it without
  checking its shape. A dictionary is an association list read by \<open>map_of\<close>.
\<close>

datatype json =
    JNull
  | JBool bool
  | JNum rat
  | JStr string
  | JList "json list"
  | JDict "(string \<times> json) list"

fun getitem_str :: "json \<Rightarrow> string \<Rightarrow> py_error + json" where
  \<comment> \<open>\<open>x["key"]\<close>\<close>
  "getitem_str (JDict kvs) k = (case map_of kvs k of None \<Rightarrow> Inl KeyError | Some v \<Rightarrow> Inr v)"
| "getitem_str _ k = Inl TypeError"

fun getitem_0 :: "json \<Rightarrow> py_error + json" where
  \<comment> \<open>\<open>x[0]\<close>; the keys of a JSON object are strings, so \<open>0\<close> is never one of them\<close>
  "getitem_0 (JList xs) = (case xs of [] \<Rightarrow> Inl IndexError | x # _ \<Rightarrow> Inr x)"
| "getitem_0 (JStr s) = (case s of [] \<Rightarrow> Inl IndexError | c # _ \<Rightarrow> Inr (JStr [c]))"
| "getitem_0 (JDict kvs) = Inl KeyError"
| "getitem_0 _ = Inl TypeError"

fun dict_get :: "json \<Rightarrow> string \<Rightarrow> json \<Rightarrow> py_error + json" where
  \<comment> \<open>\<open>x.get("key", default)\<close>; only a dictionary has the method\<close>
  "dict_get (JDict kvs) k dflt = Inr (case map_of kvs k of None \<Rightarrow> dflt | Some v \<Rightarrow> v)"
| "dict_get _ k dflt = Inl AttributeError"

fun num_of :: "json \<Rightarrow> py_error + rat" where
  \<comment> \<open>the operand of \<open>/\<close> or \<open>>\<close> against a number; \<open>bool\<close> is a subclass of \<open>int\<close>\<close>
  "num_of (JNum r) = Inr r"
| "num_of (JBool b) = Inr (if b then 1 else 0)"
| "num_of _ = Inl TypeError"

fun is_num :: "json \<Rightarrow> bool" where
  "is_num (JNum r) = True"
| "is_num _ = False"

fun float_dict :: "json \<Rightarrow> bool" where
  \<comment> \<open>a value of the annotated type \<open>Dict[str, float]\<close>\<close>
  "float_dict (JDict kvs) = list_all (\<lambda>kv. is_num (snd kv)) kvs"
| "float_dict _ = False"

fun metric :: "json \<Rightarrow> string \<Rightarrow> rat" where
  \<comment> \<open>the number stored under a key of a \<open>Dict[str, float]\<close>, 0 when the key is missing\<close>
  "metric (JDict kvs) k = (case map_of kvs k of Some (JNum r) \<Rightarrow> r | _ \<Rightarrow> 0)"
| "metric _ k = 0"

section \<open>models.py\<close>

record Vehicle =
  id_str :: string
  type_str :: string
  fuel_type :: string
  fuel_efficiency :: rat
  cargo_capacity :: rat
  current_load :: rat

record Location =
  lat :: rat
  lon :: rat
  address :: string

record RouteSegment =
  start :: Location
  end_loc :: Location
  distance :: rat
  duration :: rat
  traffic_delay :: rat
  emissions :: rat

record Route =
  segments :: "RouteSegment list"
  total_distance :: rat
  total_duration :: rat
  total_emissions :: rat
  weather_conditions :: json
  air_quality :: json

section \<open>api\_clients.py\<close>

text \<open>
  What \<open>session.get\<close> did is an input of the model: it timed out, raised another
  \<open>RequestException\<close> (\<open>raise_for_status\<close> included), or delivered a body.
\<close>

datatype http_outcome = Timeout | RequestException | Response json

definition get_simulated_route_data :: "Location \<Rightarrow> Location \<Rightarrow> json" where
  "get_simulated_route_data s e =
     JDict [(''routes'', JList [JDict [(''summary'', JDict
       [(''lengthInMeters'', JNum 50000),
        (''travelTimeInSeconds'', JNum 3600),
        (''trafficDelayInSeconds'', JNum 300)])]])]"

definition TomTomAPI_get_data :: "http_outcome \<Rightarrow> Location \<Rightarrow> Location \<Rightarrow> json" where
  "TomTomAPI_get_data outcome s e =
     (case outcome of
        Response body \<Rightarrow> body
      | Timeout \<Rightarrow> get_simulated_route_data s e
      | RequestException \<Rightarrow> get_simulated_route_data s e)"

definition get_simulated_weather_data :: json where
  "get_simulated_weather_data =
     JDict [(''weather'', JDict [(''precipitation'', JNum 0), (''wind_speed'', JNum 10),
                                 (''temperature'', JNum 25)]),
            (''air'', JDict [(''aqi'', JNum 50)])]"

definition WeatherAPI_get_data :: "http_outcome \<Rightarrow> Location \<Rightarrow> json" where
  "WeatherAPI_get_data outcome l =
     (case outcome of
        Response body \<Rightarrow> body
      | Timeout \<Rightarrow> get_simulated_weather_data
      | RequestException \<Rightarrow> get_simulated_weather_data)"

section \<open>route\_optimizer.py\<close>

subsection \<open>EmissionCalculator\<close>

definition emission_factors :: "(string \<times> rat) list" where
  "emission_factors =
     [(''diesel_truck'', fl_round (9 / 10)),
      (''electric_truck'', 0),
      (''hybrid_truck'', fl_round (6 / 10))]"

definition base_emission :: "Vehicle \<Rightarrow> rat \<Rightarrow> rat" where
  \<comment> \<open>line 16\<close>
  "base_emission vehicle distance_km =
     fmul distance_km (case map_of emission_factors (fuel_type vehicle @ ''_truck'') of
                  None \<Rightarrow> 0 | Some f \<Rightarrow> f)"

definition weather_factor :: "json \<Rightarrow> py_error + rat" where
  \<comment> \<open>lines 19 to 23\<close>
  "weather_factor wc =
     bind_err (dict_get wc ''precipitation'' (JNum 0)) (\<lambda>p.
     bind_err (num_of p) (\<lambda>pv.
     let wfac = (if 0 < pv then fmul 1 (fl_round (11 / 10)) else 1) in
     bind_err (dict_get wc ''wind_speed'' (JNum 0)) (\<lambda>w.
     bind_err (num_of w) (\<lambda>wv.
     Inr (if 20 < wv then fmul wfac (fl_round (115 / 100)) else wfac)))))"

definition load_factor :: "Vehicle \<Rightarrow> py_error + rat" where
  \<comment> \<open>line 26\<close>
  "load_factor vehicle =
     bind_err (fdiv (current_load vehicle) (cargo_capacity vehicle)) (\<lambda>q.
     Inr (fadd 1 (fmul q (fl_round (2 / 10)))))"

definition calculate_emissions :: "Vehicle \<Rightarrow> rat \<Rightarrow> json \<Rightarrow> py_error + rat" where
  "calculate_emissions vehicle distance_km wc =
     (let b = base_emission vehicle distance_km in
      bind_err (weather_factor wc) (\<lambda>wfac.
      bind_err (load_factor vehicle) (\<lambda>lfac.
      Inr (fmul (fmul b wfac) lfac))))"

subsection \<open>RouteOptimizer\<close>

text \<open>
  The two providers are parameters. Each sees the calls made so far, so nothing is
  assumed about two requests for the same place giving the same answer. The
  optimizer returns its result together with the calls it made, in order.
\<close>

datatype api_call = TrafficCall Location Location | WeatherCall Location

record providers =
  traffic_api :: "api_call list \<Rightarrow> Location \<Rightarrow> Location \<Rightarrow> json"
  weather_api :: "api_call list \<Rightarrow> Location \<Rightarrow> json"

definition summary_field :: "json \<Rightarrow> string \<Rightarrow> py_error + json" where
  \<comment> \<open>\<open>traffic_data["routes"][0]["summary"][key]\<close>\<close>
  "summary_field traffic_data k =
     bind_err (getitem_str traffic_data ''routes'') (\<lambda>rs.
     bind_err (getitem_0 rs) (\<lambda>r.
     bind_err (getitem_str r ''summary'') (\<lambda>s.
     getitem_str s k)))"

definition div_num :: "json \<Rightarrow> rat \<Rightarrow> py_error + rat" where
  \<comment> \<open>\<open>value / 1000\<close>, \<open>value / 60\<close>\<close>
  "div_num j d = bind_err (num_of j) (\<lambda>x. fdiv x d)"

definition make_route :: "Vehicle \<Rightarrow> Location \<Rightarrow> Location \<Rightarrow> json \<Rightarrow> json \<Rightarrow> py_error + Route" where
  \<comment> \<open>the body of the loop, lines 47 to 71\<close>
  "make_route vehicle current_location destination traffic_data weather_data =
     bind_err (summary_field traffic_data ''lengthInMeters'') (\<lambda>l.
     bind_err (div_num l 1000) (\<lambda>distance_km.
     bind_err (summary_field traffic_data ''travelTimeInSeconds'') (\<lambda>t.
     bind_err (div_num t 60) (\<lambda>duration_min.
     bind_err (summary_field traffic_data ''trafficDelayInSeconds'') (\<lambda>dl.
     bind_err (div_num dl 60) (\<lambda>delay_min.
     let segment = \<lparr>start = current_location, end_loc = destination,
                       distance = distance_km, duration = duration_min,
                       traffic_delay = delay_min, emissions = 0\<rparr> in
     bind_err (getitem_str weather_data ''weather'') (\<lambda>w.
     bind_err (calculate_emissions vehicle (distance segment) w) (\<lambda>em.
     let segment = segment\<lparr>emissions := em\<rparr> in
     bind_err (getitem_str weather_data ''weather'') (\<lambda>w'.
     bind_err (getitem_str weather_data ''air'') (\<lambda>a.
     Inr \<lparr>segments = [segment],
          total_distance = distance segment,
          total_duration = duration segment,
          total_emissions = emissions segment,
          weather_conditions = w',
          air_quality = a\<rparr>))))))))))"

fun optimize_loop ::
  "providers \<Rightarrow> Vehicle \<Rightarrow> Location \<Rightarrow> Location list \<Rightarrow> Route list \<Rightarrow> api_call list
     \<Rightarrow> (py_error + Route list) \<times> api_call list" where
  \<comment> \<open>the \<open>for\<close> loop from the state (\<open>current_location\<close>, \<open>possible_routes\<close>, calls made)\<close>
  "optimize_loop P vehicle current_location [] possible_routes calls =
     (Inr possible_routes, calls)"
| "optimize_loop P vehicle current_location (destination # rest) possible_routes calls =
     (let traffic_data = traffic_api P calls current_location destination;
          calls1 = calls @ [TrafficCall current_location destination];
          weather_data = weather_api P calls1 destination;
          calls2 = calls1 @ [WeatherCall destination]
      in case make_route vehicle current_location destination traffic_data weather_data of
           Inl e \<Rightarrow> (Inl e, calls2)
         | Inr route \<Rightarrow> optimize_loop P vehicle destination rest (possible_routes @ [route]) calls2)"

definition optimize_route ::
  "providers \<Rightarrow> Vehicle \<Rightarrow> Location \<Rightarrow> Location list \<Rightarrow> (py_error + Route list) \<times> api_call list" where
  "optimize_route P vehicle start_location destinations =
     optimize_loop P vehicle start_location destinations [] []"

section \<open>app.py\<close>

record route_summary =
  total_distance_km :: rat
  total_duration_mins :: rat
  total_emissions_kg :: rat
  weather_alerts :: bool
  air_quality_alerts :: bool

definition weather_alerts_of :: "json \<Rightarrow> py_error + bool" where
  \<comment> \<open>the list of pairs is built first, then \<open>any\<close> stops at the first true comparison\<close>
  "weather_alerts_of wc =
     bind_err (dict_get wc ''precipitation'' (JNum 0)) (\<lambda>p.
     bind_err (dict_get wc ''wind_speed'' (JNum 0)) (\<lambda>w.
     bind_err (num_of p) (\<lambda>pv.
     if 10 < pv then Inr True
     else bind_err (num_of w) (\<lambda>wv. Inr (30 < wv)))))"

definition air_quality_alerts_of :: "json \<Rightarrow> py_error + bool" where
  "air_quality_alerts_of aq =
     bind_err (dict_get aq ''aqi'' (JNum 0)) (\<lambda>a.
     bind_err (num_of a) (\<lambda>av. Inr (100 < av)))"

definition try_summary :: "Route \<Rightarrow> py_error + route_summary" where
  \<comment> \<open>the \<open>try\<close> block of \<open>get_route_summary\<close>\<close>
  "try_summary route =
     bind_err (weather_alerts_of (weather_conditions route)) (\<lambda>wa.
     bind_err (air_quality_alerts_of (air_quality route)) (\<lambda>aa.
     Inr \<lparr>total_distance_km = total_distance route,
          total_duration_mins = total_duration route,
          total_emissions_kg = total_emissions route,
          weather_alerts = wa,
          air_quality_alerts = aa\<rparr>))"

definition get_route_summary :: "Route \<Rightarrow> route_summary" where
  \<comment> \<open>\<open>except Exception\<close> turns every error into the all-zero summary\<close>
  "get_route_summary route =
     (case try_summary route of
        Inr summary \<Rightarrow> summary
      | Inl e \<Rightarrow> \<lparr>total_distance_km = 0, total_duration_mins = 0, total_emissions_kg = 0,
                    weather_alerts = False, air_quality_alerts = False\<rparr>)"

section \<open>The specification's formulas\<close>

text \<open>
  The factor table and the weather multiplier as the specification words them, to be
  compared with what \<open>calculate_emissions\<close> computes. The literals \<open>0.9\<close>, \<open>1.10\<close>,
  \<open>1.15\<close> are Python's: the doubles nearest to these decimals.
\<close>

definition spec_emission_factor :: "string \<Rightarrow> rat" where
  "spec_emission_factor ft =
     (if ft = ''diesel'' then fl_round (9 / 10)
      else if ft = ''electric'' then 0
      else if ft = ''hybrid'' then fl_round (6 / 10)
      else 0)"

definition spec_weather_multiplier :: "json \<Rightarrow> rat" where
  "spec_weather_multiplier wc =
     (let m0 = 1;
          m1 = (if 0 < metric wc ''precipitation'' then fmul m0 (fl_round (11 / 10)) else m0);
          m2 = (if 20 < metric wc ''wind_speed'' then fmul m1 (fl_round (115 / 100)) else m1)
      in m2)"

text \<open>
  The calls the specification expects for a start and a list of destinations: for each
  consecutive pair, the traffic lookup for the pair, then the weather lookup for its end.
\<close>

definition expected_calls :: "Location \<Rightarrow> Location list \<Rightarrow> api_call list" where
  "expected_calls s ds =
     concat (map (\<lambda>(a, b). [TrafficCall a b, WeatherCall b]) (zip (s # ds) ds))"

text \<open>
  A well-formed traffic response exposes the three numbers of the summary; a well-formed
  weather response exposes a weather mapping and an air entry.
\<close>

definition is_number_field :: "json \<Rightarrow> string \<Rightarrow> bool" where
  "is_number_field td k = (case summary_field td k of Inr (JNum x) \<Rightarrow> True | _ \<Rightarrow> False)"

definition traffic_ok :: "json \<Rightarrow> bool" where
  "traffic_ok td \<longleftrightarrow>
     is_number_field td ''lengthInMeters'' \<and> is_number_field td ''travelTimeInSeconds''
     \<and> is_number_field td ''trafficDelayInSeconds''"

definition weather_ok :: "json \<Rightarrow> bool" where
  "weather_ok wd \<longleftrightarrow>
     (case getitem_str wd ''weather'' of Inr w \<Rightarrow> float_dict w | Inl e \<Rightarrow> False)
     \<and> (case getitem_str wd ''air'' of Inr a \<Rightarrow> True | Inl e \<Rightarrow> False)"


section \<open>Example inputs\<close>

definition diesel_truck :: Vehicle where
  "diesel_truck = \<lparr>id_str = ''T1'', type_str = ''truck'', fuel_type = ''diesel'',
                    fuel_efficiency = 8, cargo_capacity = 1000, current_load = 0\<rparr>"

definition negative_capacity_truck :: Vehicle where
  "negative_capacity_truck = \<lparr>id_str = ''T2'', type_str = ''truck'', fuel_type = ''diesel'',
                    fuel_efficiency = 8, cargo_capacity = - 100, current_load = 1000\<rparr>"

definition depot :: Location where
  "depot = \<lparr>lat = 52, lon = 13, address = ''Depot''\<rparr>"

definition stop_a :: Location where
  "stop_a = \<lparr>lat = 53, lon = 10, address = ''Stop A''\<rparr>"

definition stop_b :: Location where
  "stop_b = \<lparr>lat = 48, lon = 11, address = ''Stop B''\<rparr>"

definition stormy_route :: Route where
  "stormy_route =
     \<lparr>segments = [\<lparr>start = depot, end_loc = stop_a, distance = 50, duration = 60,
                    traffic_delay = 5, emissions = 45\<rparr>],
      total_distance = 50, total_duration = 60, total_emissions = 45,
      weather_conditions = JDict [(''precipitation'', JNum 12), (''wind_speed'', JNum 10)],
      air_quality = JDict [(''aqi'', JNum 50)]\<rparr>"

definition simulated_providers :: providers where
  "simulated_providers =
     \<lparr>traffic_api = (\<lambda>calls a b. TomTomAPI_get_data Timeout a b),
      weather_api = (\<lambda>calls a. WeatherAPI_get_data RequestException a)\<rparr>"

definition no_routes_providers :: providers where
  "no_routes_providers =
     \<lparr>traffic_api = (\<lambda>calls a b. TomTomAPI_get_data (Response (JDict [])) a b),
      weather_api = (\<lambda>calls a. WeatherAPI_get_data Timeout a)\<rparr>"

definition flaky_providers :: providers where
  "flaky_providers =
     \<lparr>traffic_api = (\<lambda>calls a b.
                       TomTomAPI_get_data
                         (if calls = [] then Timeout else Response (JDict [(''routes'', JList [])]))
                         a b),
      weather_api = (\<lambda>calls a. WeatherAPI_get_data Timeout a)\<rparr>"

definition first_leg :: Route where
  "first_leg =
     \<lparr>segments = [\<lparr>start = depot, end_loc = stop_a, distance = 50, duration = 60,
                    traffic_delay = 5, emissions = 45\<rparr>],
      total_distance = 50, total_duration = 60, total_emissions = 45,
      weather_conditions = JDict [(''precipitation'', JNum 0), (''wind_speed'', JNum 10),
                                  (''temperature'', JNum 25)],
      air_quality = JDict [(''aqi'', JNum 50)]\<rparr>"

section \<open>Rounding to a double\<close>

lemma round_half_even_of_int: "round_half_even (of_int n) = n"
  by (simp add: round_half_even_def)

lemma round_half_even_bounds:
  "\<lfloor>x\<rfloor> \<le> round_half_even x" "round_half_even x \<le> \<lfloor>x\<rfloor> + 1"
  by (simp_all add: round_half_even_def Let_def)

lemma round_half_even_mono:
  assumes "x \<le> y"
  shows "round_half_even x \<le> round_half_even y"
proof (cases "\<lfloor>x\<rfloor> = \<lfloor>y\<rfloor>")
  case True
  with assms show ?thesis
    by (auto simp add: round_half_even_def Let_def)
next
  case False
  with assms have "\<lfloor>x\<rfloor> + 1 \<le> \<lfloor>y\<rfloor>"
    using floor_mono[of x y] by linarith
  with round_half_even_bounds(2)[of x] round_half_even_bounds(1)[of y]
  show ?thesis by linarith
qed

lemma ilog2_bounds:
  assumes "0 < x"
  shows "2 powi (ilog2 x) \<le> x" and "x < 2 powi (ilog2 x + 1)"
proof -
  have "2 powi (ilog2 x) \<le> x \<and> x < 2 powi (ilog2 x + 1)"
  proof (cases "1 \<le> x")
    case True
    then have fl: "0 < \<lfloor>x\<rfloor>" by simp
    define b where "b = bitlen \<lfloor>x\<rfloor>"
    have b1: "1 \<le> b" using fl by (simp add: b_def bitlen_alt_def)
    from bitlen_bounds[OF fl]
    have lo: "(2::int) ^ nat (b - 1) \<le> \<lfloor>x\<rfloor>" and hi: "\<lfloor>x\<rfloor> < (2::int) ^ nat b"
      by (simp_all add: b_def)
    have "of_int ((2::int) ^ nat (b - 1)) \<le> x"
      using lo by (meson le_floor_iff)
    then have 1: "(2::rat) powi (b - 1) \<le> x"
      using b1 by (simp add: power_int_def)
    have "x < of_int ((2::int) ^ nat b)"
      using hi by (meson floor_less_iff)
    then have 2: "x < (2::rat) powi b"
      using b1 by (simp add: power_int_def)
    from True 1 2 show ?thesis by (simp add: ilog2_def b_def)
  next
    case False
    with assms have x1: "x < 1" by simp
    define n where "n = \<lceil>1 / x\<rceil> - 1"
    have "1 < 1 / x" using assms x1 by simp
    then have n1: "0 < n" unfolding n_def by linarith 
    define b where "b = bitlen n"
    have b1: "1 \<le> b" using n1 by (simp add: b_def bitlen_alt_def)
    from bitlen_bounds[OF n1]
    have lo: "(2::int) ^ nat (b - 1) \<le> n" and hi: "n < (2::int) ^ nat b"
      by (simp_all add: b_def)
    have nlt: "of_int n < 1 / x" unfolding n_def by linarith
    have nge: "1 / x \<le> of_int (n + 1)" unfolding n_def by simp
    have "(2::rat) ^ nat (b - 1) \<le> of_int n"
      using lo by (metis of_int_le_iff of_int_numeral of_int_power)
    with nlt have A: "(2::rat) ^ nat (b - 1) < 1 / x" by linarith
    have "n + 1 \<le> (2::int) ^ nat b" using hi by simp
    then have "of_int (n + 1) \<le> (2::rat) ^ nat b"
      by (metis of_int_le_iff of_int_numeral of_int_power)
    with nge have B: "1 / x \<le> (2::rat) ^ nat b" by linarith
    have 1: "(2::rat) powi (- b) \<le> x"
    proof -
      have "1 / (2::rat) ^ nat b \<le> x"
        using B assms by (simp add: field_simps)
      then show ?thesis using b1 by (simp add: power_int_def field_simps)
    qed
    have 2: "x < (2::rat) powi (- b + 1)"
    proof -
      have "x < 1 / (2::rat) ^ nat (b - 1)"
        using A assms by (simp add: field_simps)
      moreover have "(2::rat) powi (- b + 1) = 1 / (2::rat) ^ nat (b - 1)"
        using b1 by (cases "b = 1") (simp_all add: power_int_def field_simps)
      ultimately show ?thesis by simp
    qed
    from False 1 2 show ?thesis by (simp add: ilog2_def b_def n_def)
  qed
  then show "2 powi (ilog2 x) \<le> x" and "x < 2 powi (ilog2 x + 1)" by simp_all
qed

lemma ilog2_less_iff:
  assumes "0 < x" "x < 2 powi k"
  shows "ilog2 x < k"
proof (rule ccontr)
  assume "\<not> ilog2 x < k"
  then have "(2::rat) powi k \<le> 2 powi (ilog2 x)"
    by (intro power_int_increasing) simp_all
  with ilog2_bounds(1)[OF assms(1)] assms(2) show False by linarith
qed



lemma fl_round_pos:
  "0 < x \<Longrightarrow> fl_round x = of_int (round_half_even (x / 2 powi (ulp_exp x))) * 2 powi (ulp_exp x)"
  by (simp add: fl_round_def Let_def)

lemma fl_round_zero: "fl_round 0 = 0"
  by (simp add: fl_round_def)

lemma fl_round_minus: "fl_round (- x) = - fl_round x"
  by (simp add: fl_round_def Let_def)

lemma pow2_split: "(2::rat) powi (a + b) = 2 powi a * 2 powi b"
  by (rule power_int_add) simp

lemma scaled_below:
  assumes "0 < x"
  shows "x / 2 powi (ulp_exp x) < 2 ^ 53"
proof -
  have "x < 2 powi (ilog2 x + 1)" by (rule ilog2_bounds(2)[OF assms])
  also have "\<dots> \<le> 2 powi (ulp_exp x + 53)"
    by (intro power_int_increasing) (simp_all add: ulp_exp_def)
  also have "\<dots> = 2 powi (ulp_exp x) * 2 ^ 53"
    by (simp add: pow2_split)
  finally show ?thesis by (simp add: field_simps)
qed

lemma mantissa_bounds:
  assumes "0 < x"
  shows "0 \<le> round_half_even (x / 2 powi (ulp_exp x))"
    and "round_half_even (x / 2 powi (ulp_exp x)) \<le> 2 ^ 53"
proof -
  have "0 \<le> x / 2 powi (ulp_exp x)" using assms by simp
  from round_half_even_mono[OF this] show "0 \<le> round_half_even (x / 2 powi (ulp_exp x))"
    using round_half_even_of_int[of 0] by simp
  have "x / 2 powi (ulp_exp x) \<le> of_int (2 ^ 53)"
    using scaled_below[OF assms] by simp
  from round_half_even_mono[OF this] show "round_half_even (x / 2 powi (ulp_exp x)) \<le> 2 ^ 53"
    by (simp only: round_half_even_of_int)
qed






lemma fl_round_fixes_pos:
  assumes m: "0 < m" "m < 2 ^ 53" and k: "- 1074 \<le> k"
  shows "fl_round (of_int m * 2 powi k) = of_int m * 2 powi k"
proof -
  define y :: rat where "y = of_int m * 2 powi k"
  have y: "0 < y" using m(1) by (simp add: y_def)
  have "(of_int m :: rat) < of_int (2 ^ 53)"
    using m(2) by (simp only: of_int_less_iff)
  then have "(of_int m :: rat) < 2 ^ 53"
    by (simp only: of_int_power of_int_numeral)
  then have "y < 2 ^ 53 * 2 powi k"
    unfolding y_def by (rule mult_strict_right_mono) simp
  also have "\<dots> = 2 powi (k + 53)"
    by (simp only: pow2_split power_int_numeral mult.commute)
  finally have "ilog2 y < k + 53" by (rule ilog2_less_iff[OF y])
  with k have e: "ulp_exp y \<le> k" by (simp add: ulp_exp_def)
  define d where "d = nat (k - ulp_exp y)"
  define u :: rat where "u = 2 powi (ulp_exp y)"
  have u: "0 < u" by (simp add: u_def)
  have kd: "k = ulp_exp y + int d" using e by (simp add: d_def)
  have "(2::rat) powi k = 2 powi (ulp_exp y + int d)"
    using kd by (rule arg_cong)
  also have "\<dots> = u * 2 ^ d"
    by (simp only: pow2_split power_int_of_nat u_def)
  finally have pk: "(2::rat) powi k = u * 2 ^ d" .
  have yk: "y = of_int (m * 2 ^ d) * u"
    by (simp add: y_def pk)
  then have sc: "y / u = of_int (m * 2 ^ d)"
    using u by simp
  have "fl_round y = of_int (round_half_even (y / u)) * u"
    unfolding u_def by (rule fl_round_pos[OF y])
  also have "\<dots> = of_int (m * 2 ^ d) * u"
    by (simp only: sc round_half_even_of_int)
  also have "\<dots> = y"
    by (rule yk [symmetric])
  finally show ?thesis by (simp only: y_def)
qed

lemma fl_round_fixes:
  assumes "is_double y"
  shows "fl_round y = y"
proof -
  from assms obtain m k where mk: "\<bar>m\<bar> < 2 ^ 53" "- 1074 \<le> k" "y = of_int m * 2 powi k"
    unfolding is_double_def by blast
  consider "m = 0" | "0 < m" | "m < 0" by linarith
  then show ?thesis
  proof cases
    case 1
    then show ?thesis by (simp add: mk(3) fl_round_zero)
  next
    case 2
    then show ?thesis using mk fl_round_fixes_pos[of m k] by simp
  next
    case 3
    then have "fl_round (of_int (- m) * 2 powi k) = of_int (- m) * 2 powi k"
      using mk by (intro fl_round_fixes_pos) simp_all
    then have "fl_round (- y) = - y" by (simp add: mk(3))
    then show ?thesis by (simp add: fl_round_minus)
  qed
qed

lemma is_double_minus:
  assumes "is_double y"
  shows "is_double (- y)"
proof -
  from assms obtain m k where mk: "\<bar>m\<bar> < 2 ^ 53" "- 1074 \<le> k" "y = of_int m * 2 powi k"
    unfolding is_double_def by blast
  have "\<bar>- m\<bar> < 2 ^ 53" using mk(1) by (simp only: abs_minus_cancel)
  moreover have "- y = of_int (- m) * 2 powi k" by (simp only: mk(3) of_int_minus mult_minus_left)
  ultimately show ?thesis unfolding is_double_def using mk(2) by blast
qed

lemma is_double_fl_round_pos:
  assumes "0 < x"
  shows "is_double (fl_round x)"
proof -
  define m where "m = round_half_even (x / 2 powi (ulp_exp x))"
  have m: "0 \<le> m" "m \<le> 2 ^ 53"
    using mantissa_bounds[OF assms] by (simp_all add: m_def)
  have fl: "fl_round x = of_int m * 2 powi (ulp_exp x)"
    by (simp add: fl_round_pos[OF assms] m_def)
  have k: "- 1074 \<le> ulp_exp x" by (simp add: ulp_exp_def)
  show ?thesis
  proof (cases "m = 2 ^ 53")
    case True
    have "fl_round x = of_int (2 ^ 52) * 2 powi (ulp_exp x + 1)"
      by (simp add: fl True pow2_split)
    moreover have "\<bar>2 ^ 52 :: int\<bar> < 2 ^ 53" by simp
    moreover have "- 1074 \<le> ulp_exp x + 1" using k by simp
    ultimately show ?thesis unfolding is_double_def by blast
  next
    case False
    with m have "\<bar>m\<bar> < 2 ^ 53" by simp
    with fl k show ?thesis unfolding is_double_def by blast
  qed
qed

lemma is_double_fl_round: "is_double (fl_round x)"
proof -
  consider "x = 0" | "0 < x" | "x < 0" by linarith
  then show ?thesis
  proof cases
    case 1
    have "\<bar>0::int\<bar> < 2 ^ 53 \<and> - 1074 \<le> (0::int) \<and> (0::rat) = of_int 0 * 2 powi 0" by simp
    then have "is_double 0" unfolding is_double_def by blast
    then show ?thesis by (simp add: 1 fl_round_zero)
  next
    case 2
    then show ?thesis by (rule is_double_fl_round_pos)
  next
    case 3
    then have "is_double (fl_round (- x))" by (intro is_double_fl_round_pos) simp
    then have "is_double (- fl_round (- x))" by (rule is_double_minus)
    then show ?thesis by (simp add: fl_round_minus)
  qed
qed

lemma fl_round_idem: "fl_round (fl_round x) = fl_round x"
  by (rule fl_round_fixes[OF is_double_fl_round])

section \<open>Facts about the emission calculator\<close>

lemma bind_err_Inl [simp]: "bind_err (Inl e) f = Inl e"
  by (simp add: bind_err_def)

lemma bind_err_Inr [simp]: "bind_err (Inr x) f = f x"
  by (simp add: bind_err_def)

lemma bind_err_eq_Inr:
  "bind_err m f = Inr y \<longleftrightarrow> (\<exists>x. m = Inr x \<and> f x = Inr y)"
  by (cases m) simp_all

lemma fl_round_one: "fl_round 1 = 1"
  by code_simp

lemma fmul_one_left: "fmul 1 x = fl_round x"
  by (simp add: fmul_def)

lemma fmul_zero_left: "fmul 0 x = 0"
  by (simp add: fmul_def fl_round_zero)


lemma dict_get_float_dict:
  assumes "float_dict wc"
  shows "dict_get wc k (JNum 0) = Inr (JNum (metric wc k))"
proof (cases wc)
  case (JDict kvs)
  show ?thesis
  proof (cases "map_of kvs k")
    case None
    with JDict show ?thesis by simp
  next
    case (Some v)
    then have "(k, v) \<in> set kvs" by (rule map_of_SomeD)
    with assms JDict have "is_num v" by (auto simp: list_all_iff)
    then obtain r where "v = JNum r" by (cases v) simp_all
    with JDict Some show ?thesis by simp
  qed
qed (use assms in simp_all)

lemma emission_factor_lookup:
  "(case map_of emission_factors (ft @ ''_truck'') of None \<Rightarrow> 0 | Some f \<Rightarrow> f)
     = spec_emission_factor ft"
proof -
  have d: "ft @ ''_truck'' = ''diesel_truck'' \<longleftrightarrow> ft = ''diesel''"
    using append_same_eq[of ft "''_truck''" "''diesel''"] by simp
  have e: "ft @ ''_truck'' = ''electric_truck'' \<longleftrightarrow> ft = ''electric''"
    using append_same_eq[of ft "''_truck''" "''electric''"] by simp
  have h: "ft @ ''_truck'' = ''hybrid_truck'' \<longleftrightarrow> ft = ''hybrid''"
    using append_same_eq[of ft "''_truck''" "''hybrid''"] by simp
  have d': "''diesel_truck'' = ft @ ''_truck'' \<longleftrightarrow> ft = ''diesel''"
    using d by (metis (no_types))
  have e': "''electric_truck'' = ft @ ''_truck'' \<longleftrightarrow> ft = ''electric''"
    using e by (metis (no_types))
  have h': "''hybrid_truck'' = ft @ ''_truck'' \<longleftrightarrow> ft = ''hybrid''"
    using h by (metis (no_types))
  show ?thesis
    unfolding emission_factors_def spec_emission_factor_def map_of.simps fst_conv snd_conv
    by (simp only: d e h d' e' h' fun_upd_apply option.case if_distrib[of "case_option _ _"] split: if_splits)
qed

lemma weather_factor_float_dict:
  assumes "float_dict wc"
  shows "weather_factor wc = Inr (spec_weather_multiplier wc)"
  by (simp add: weather_factor_def spec_weather_multiplier_def dict_get_float_dict[OF assms] Let_def)

lemma load_factor_nonzero:
  assumes "cargo_capacity v \<noteq> 0"
  shows "load_factor v
           = Inr (fadd 1 (fmul (fl_round (current_load v / cargo_capacity v)) (fl_round (2 / 10))))"
  using assms by (simp add: load_factor_def fdiv_def)

lemma load_factor_zero:
  assumes "cargo_capacity v = 0"
  shows "load_factor v = Inl ZeroDivisionError"
  using assms by (simp add: load_factor_def fdiv_def)





lemma calculate_emissions_value:
  assumes "cargo_capacity v \<noteq> 0" "float_dict wc"
  shows "calculate_emissions v d wc =
           Inr (fmul (fmul (fmul d (spec_emission_factor (fuel_type v)))
                           (spec_weather_multiplier wc))
                     (fadd 1 (fmul (fl_round (current_load v / cargo_capacity v))
                                   (fl_round (2 / 10)))))"
  by (simp add: calculate_emissions_def base_emission_def emission_factor_lookup
      weather_factor_float_dict[OF assms(2)] load_factor_nonzero[OF assms(1)])



lemma multiplier_1265: "fl_round (fl_round (11 / 10) * fl_round (23 / 20)) = fl_round (253 / 200)"
  by code_simp

lemma fl_round_11_10: "fl_round (fl_round (11 / 10)) = fl_round (11 / 10)"
  by (rule fl_round_idem)

lemma calculate_emissions_split:
  assumes "float_dict wc" "load_factor v = Inr lfac"
  shows "calculate_emissions v d wc
           = Inr (fmul (fmul (base_emission v d) (spec_weather_multiplier wc)) lfac)"
  by (simp add: calculate_emissions_def weather_factor_float_dict[OF assms(1)] assms(2))




lemma weather_alerts_float_dict:
  assumes "float_dict wc"
  shows "weather_alerts_of wc
           = Inr (10 < metric wc ''precipitation'' \<or> 30 < metric wc ''wind_speed'')"
  by (simp add: weather_alerts_of_def dict_get_float_dict[OF assms])

lemma air_quality_alerts_float_dict:
  assumes "float_dict aq"
  shows "air_quality_alerts_of aq = Inr (100 < metric aq ''aqi'')"
  by (simp add: air_quality_alerts_of_def dict_get_float_dict[OF assms])




section \<open>Facts about the optimizer loop\<close>

lemma bind_err_eq_Inl:
  "bind_err m f = Inl e \<longleftrightarrow> m = Inl e \<or> (\<exists>x. m = Inr x \<and> f x = Inl e)"
  by (cases m) simp_all

lemma div_num_is_double: "div_num j c = Inr x \<Longrightarrow> is_double x"
  by (auto simp: div_num_def fdiv_def bind_err_eq_Inr is_double_fl_round split: if_splits)

lemma calculate_emissions_is_double: "calculate_emissions v d wc = Inr x \<Longrightarrow> is_double x"
  by (auto simp: calculate_emissions_def bind_err_eq_Inr fmul_def is_double_fl_round)

lemma make_route_Inr:
  assumes "make_route v cur d td wd = Inr r"
  shows "\<exists>seg l t dl. segments r = [seg] \<and> start seg = cur \<and> end_loc seg = d
           \<and> total_distance r = distance seg \<and> total_duration r = duration seg
           \<and> total_emissions r = emissions seg
           \<and> summary_field td ''lengthInMeters'' = Inr l \<and> div_num l 1000 = Inr (distance seg)
           \<and> summary_field td ''travelTimeInSeconds'' = Inr t \<and> div_num t 60 = Inr (duration seg)
           \<and> summary_field td ''trafficDelayInSeconds'' = Inr dl
           \<and> div_num dl 60 = Inr (traffic_delay seg)
           \<and> is_double (emissions seg)"
proof -
  from assms obtain l x t y dl z w em w' a where
    l: "summary_field td ''lengthInMeters'' = Inr l" "div_num l 1000 = Inr x"
    and t: "summary_field td ''travelTimeInSeconds'' = Inr t" "div_num t 60 = Inr y"
    and dl: "summary_field td ''trafficDelayInSeconds'' = Inr dl" "div_num dl 60 = Inr z"
    and w: "getitem_str wd ''weather'' = Inr w" "calculate_emissions v x w = Inr em"
    and r: "r = \<lparr>segments = [\<lparr>start = cur, end_loc = d, distance = x, duration = y,
                    traffic_delay = z, emissions = em\<rparr>],
              total_distance = x, total_duration = y, total_emissions = em,
              weather_conditions = w', air_quality = a\<rparr>"
    unfolding make_route_def by (auto simp: bind_err_eq_Inr Let_def)
  from w(2) have "is_double em" by (rule calculate_emissions_is_double)
  with l t dl r show ?thesis by simp
qed

lemma expected_calls_Nil [simp]: "expected_calls s [] = []"
  by (simp add: expected_calls_def)

lemma expected_calls_Cons [simp]:
  "expected_calls s (d # ds) = TrafficCall s d # WeatherCall d # expected_calls d ds"
  by (simp add: expected_calls_def)

lemma optimize_loop_Cons_Inl:
  assumes "make_route v cur d (traffic_api P calls cur d)
             (weather_api P (calls @ [TrafficCall cur d]) d) = Inl e"
  shows "optimize_loop P v cur (d # ds) acc calls
           = (Inl e, calls @ [TrafficCall cur d, WeatherCall d])"
  using assms by (simp add: Let_def)

lemma optimize_loop_Cons_Inr:
  assumes "make_route v cur d (traffic_api P calls cur d)
             (weather_api P (calls @ [TrafficCall cur d]) d) = Inr r"
  shows "optimize_loop P v cur (d # ds) acc calls
           = optimize_loop P v d ds (acc @ [r]) (calls @ [TrafficCall cur d, WeatherCall d])"
  using assms by (simp add: Let_def)

declare optimize_loop.simps(2) [simp del]


text \<open>What a successful run returns: one route per destination, appended to the
  routes already collected, each built by the loop body from the responses to the
  calls made at that point.\<close>

lemma optimize_loop_success:
  assumes "fst (optimize_loop P v cur ds acc calls) = Inr routes"
  shows "snd (optimize_loop P v cur ds acc calls) = calls @ expected_calls cur ds
         \<and> (\<exists>new. routes = acc @ new \<and> length new = length ds
              \<and> (\<forall>i<length ds.
                    make_route v ((cur # ds) ! i) (ds ! i)
                      (traffic_api P (calls @ expected_calls cur (take i ds)) ((cur # ds) ! i) (ds ! i))
                      (weather_api P (calls @ expected_calls cur (take i ds)
                                        @ [TrafficCall ((cur # ds) ! i) (ds ! i)]) (ds ! i))
                    = Inr (new ! i)))"
  using assms
proof (induction ds arbitrary: cur acc calls)
  case Nil
  then show ?case by simp
next
  case (Cons d ds)
  let ?c2 = "calls @ [TrafficCall cur d, WeatherCall d]"
  show ?case
  proof (cases "make_route v cur d (traffic_api P calls cur d)
             (weather_api P (calls @ [TrafficCall cur d]) d)")
    case (Inl e)
    with Cons.prems show ?thesis by (simp add: optimize_loop_Cons_Inl[OF Inl])
  next
    case (Inr r)
    from Cons.prems have "fst (optimize_loop P v d ds (acc @ [r]) ?c2) = Inr routes"
      by (simp add: optimize_loop_Cons_Inr[OF Inr])
    from Cons.IH[OF this] obtain new where
      calls: "snd (optimize_loop P v d ds (acc @ [r]) ?c2) = ?c2 @ expected_calls d ds"
      and new: "routes = (acc @ [r]) @ new" "length new = length ds"
      and each: "\<forall>i<length ds.
             make_route v ((d # ds) ! i) (ds ! i)
               (traffic_api P (?c2 @ expected_calls d (take i ds)) ((d # ds) ! i) (ds ! i))
               (weather_api P (?c2 @ expected_calls d (take i ds)
                                 @ [TrafficCall ((d # ds) ! i) (ds ! i)]) (ds ! i))
             = Inr (new ! i)"
      by blast
    have 1: "snd (optimize_loop P v cur (d # ds) acc calls) = calls @ expected_calls cur (d # ds)"
      by (simp add: optimize_loop_Cons_Inr[OF Inr] calls)
    have 2: "routes = acc @ (r # new)" "length (r # new) = length (d # ds)"
      using new by simp_all
    have 3: "make_route v ((cur # d # ds) ! i) ((d # ds) ! i)
               (traffic_api P (calls @ expected_calls cur (take i (d # ds)))
                  ((cur # d # ds) ! i) ((d # ds) ! i))
               (weather_api P (calls @ expected_calls cur (take i (d # ds))
                                 @ [TrafficCall ((cur # d # ds) ! i) ((d # ds) ! i)]) ((d # ds) ! i))
             = Inr ((r # new) ! i)" if "i < length (d # ds)" for i
    proof (cases i)
      case 0
      with Inr show ?thesis by simp
    next
      case (Suc j)
      with that have "j < length ds" by simp
      with each Suc show ?thesis by simp
    qed
    from 1 2 3 show ?thesis by blast
  qed
qed

lemma make_route_total:
  assumes "traffic_ok td" "weather_ok wd" "cargo_capacity v \<noteq> 0"
  shows "\<exists>r. make_route v cur d td wd = Inr r"
proof -
  from assms(1) obtain x y z where
    "summary_field td ''lengthInMeters'' = Inr (JNum x)"
    "summary_field td ''travelTimeInSeconds'' = Inr (JNum y)"
    "summary_field td ''trafficDelayInSeconds'' = Inr (JNum z)"
    unfolding traffic_ok_def is_number_field_def
    by (auto split: sum.splits json.splits)
  moreover from assms(2) obtain w a where
    "getitem_str wd ''weather'' = Inr w" "float_dict w" "getitem_str wd ''air'' = Inr a"
    unfolding weather_ok_def by (auto split: sum.splits)
  ultimately show ?thesis
    using calculate_emissions_value[OF assms(3), of w]
    by (simp add: make_route_def div_num_def fdiv_def Let_def)
qed

lemma optimize_loop_total:
  assumes "\<forall>c a b. traffic_ok (traffic_api P c a b)" "\<forall>c a. weather_ok (weather_api P c a)"
    "cargo_capacity v \<noteq> 0"
  shows "\<exists>routes. fst (optimize_loop P v cur ds acc calls) = Inr routes"
proof (induction ds arbitrary: cur acc calls)
  case Nil
  then show ?case by simp
next
  case (Cons d ds)
  from make_route_total[OF assms(1)[rule_format] assms(2)[rule_format] assms(3)]
  obtain r where "make_route v cur d (traffic_api P calls cur d)
             (weather_api P (calls @ [TrafficCall cur d]) d) = Inr r"
    by blast
  then show ?case
    using Cons.IH by (simp add: optimize_loop_Cons_Inr)
qed

lemma optimize_loop_append:
  assumes "optimize_loop P v cur xs acc calls = (Inr routes, c)"
  shows "optimize_loop P v cur (xs @ ys) acc calls
           = optimize_loop P v (last (cur # xs)) ys routes c"
  using assms
proof (induction xs arbitrary: cur acc calls)
  case Nil
  then show ?case by simp
next
  case (Cons d xs)
  show ?case
  proof (cases "make_route v cur d (traffic_api P calls cur d)
             (weather_api P (calls @ [TrafficCall cur d]) d)")
    case (Inl e)
    with Cons.prems show ?thesis by (simp add: optimize_loop_Cons_Inl[OF Inl])
  next
    case (Inr r)
    from Cons.prems
    have "optimize_loop P v d xs (acc @ [r]) (calls @ [TrafficCall cur d, WeatherCall d])
            = (Inr routes, c)"
      by (simp add: optimize_loop_Cons_Inr[OF Inr])
    from Cons.IH[OF this] show ?thesis
      using optimize_loop_Cons_Inr[OF Inr, of "xs @ ys" acc] by simp
  qed
qed

lemma fl_round_50: "fl_round 50 = 50"
  by code_simp

lemma fl_round_60: "fl_round 60 = 60"
  by code_simp

lemma fl_round_5: "fl_round 5 = 5"
  by code_simp

lemma summary_field_simulated:
  "summary_field (get_simulated_route_data a b) ''lengthInMeters'' = Inr (JNum 50000)"
  "summary_field (get_simulated_route_data a b) ''travelTimeInSeconds'' = Inr (JNum 3600)"
  "summary_field (get_simulated_route_data a b) ''trafficDelayInSeconds'' = Inr (JNum 300)"
  by (simp_all add: summary_field_def get_simulated_route_data_def)

lemma traffic_ok_simulated: "traffic_ok (get_simulated_route_data a b)"
  by (simp add: traffic_ok_def is_number_field_def summary_field_simulated)

lemma weather_ok_simulated: "weather_ok get_simulated_weather_data"
  by (simp add: weather_ok_def get_simulated_weather_data_def)


lemma py_sum_single: "is_double x \<Longrightarrow> py_sum [x] = x"
  by (simp add: fadd_def fl_round_fixes)

lemma optimize_route_each:
  assumes "fst (optimize_route P v s ds) = Inr routes" "r \<in> set routes"
  shows "\<exists>cur d c c'. make_route v cur d (traffic_api P c cur d) (weather_api P c' d) = Inr r"
proof -
  from optimize_loop_success[OF assms(1)[unfolded optimize_route_def]]
  have len: "length routes = length ds"
    and each: "\<forall>i<length ds.
             make_route v ((s # ds) ! i) (ds ! i)
               (traffic_api P ([] @ expected_calls s (take i ds)) ((s # ds) ! i) (ds ! i))
               (weather_api P ([] @ expected_calls s (take i ds)
                                 @ [TrafficCall ((s # ds) ! i) (ds ! i)]) (ds ! i))
             = Inr (routes ! i)"
    by auto
  from assms(2) obtain i where i: "i < length routes" "r = routes ! i"
    by (auto simp: in_set_conv_nth)
  with len have "i < length ds" by simp
  from each[rule_format, OF this] show ?thesis
    unfolding i(2) by (intro exI)
qed

lemma make_route_error_shapes:
  "td = JDict kvs \<Longrightarrow> map_of kvs ''routes'' = None \<Longrightarrow> make_route v cur d td wd = Inl KeyError"
  "td = JDict kvs \<Longrightarrow> map_of kvs ''routes'' = Some (JList []) \<Longrightarrow>
     make_route v cur d td wd = Inl IndexError"
  "td = JDict kvs \<Longrightarrow> map_of kvs ''routes'' = Some (JList (JDict r0 # rs)) \<Longrightarrow>
     map_of r0 ''summary'' = None \<Longrightarrow> make_route v cur d td wd = Inl KeyError"
  by (simp_all add: make_route_def summary_field_def)

lemma make_route_no_weather:
  assumes "traffic_ok td" "wd = JDict wkvs" "map_of wkvs ''weather'' = None"
  shows "make_route v cur d td wd = Inl KeyError"
proof -
  from assms(1) obtain x y z where
    "summary_field td ''lengthInMeters'' = Inr (JNum x)"
    "summary_field td ''travelTimeInSeconds'' = Inr (JNum y)"
    "summary_field td ''trafficDelayInSeconds'' = Inr (JNum z)"
    unfolding traffic_ok_def is_number_field_def
    by (auto split: sum.splits json.splits)
  then show ?thesis
    using assms(2,3) by (simp add: make_route_def div_num_def fdiv_def Let_def)
qed

lemma diesel_50: "fl_round (50 * fl_round (9 / 10)) = 45"
  by code_simp

lemma fl_round_45: "fl_round 45 = 45"
  by code_simp

lemma first_leg_body:
  "make_route diesel_truck depot stop_a (get_simulated_route_data depot stop_a)
     get_simulated_weather_data = Inr first_leg"
proof -
  have w: "getitem_str get_simulated_weather_data ''weather''
             = Inr (JDict [(''precipitation'', JNum 0), (''wind_speed'', JNum 10),
                           (''temperature'', JNum 25)])"
    and a: "getitem_str get_simulated_weather_data ''air'' = Inr (JDict [(''aqi'', JNum 50)])"
    by (simp_all add: get_simulated_weather_data_def)
  have e: "calculate_emissions diesel_truck 50
             (JDict [(''precipitation'', JNum 0), (''wind_speed'', JNum 10),
                     (''temperature'', JNum 25)]) = Inr 45"
    by (simp add: calculate_emissions_def base_emission_def emission_factors_def
        weather_factor_def load_factor_def fdiv_def diesel_truck_def
        fmul_def fadd_def fl_round_zero fl_round_one diesel_50 fl_round_45)
  show ?thesis
    by (simp add: make_route_def summary_field_simulated div_num_def fdiv_def
        fl_round_50 fl_round_60 fl_round_5 w a e first_leg_def)
qed

lemma first_leg_run:
  "optimize_route flaky_providers diesel_truck depot [stop_a]
     = (Inr [first_leg], [TrafficCall depot stop_a, WeatherCall stop_a])"
proof -
  have "make_route diesel_truck depot stop_a (traffic_api flaky_providers [] depot stop_a)
          (weather_api flaky_providers ([] @ [TrafficCall depot stop_a]) stop_a) = Inr first_leg"
    using first_leg_body
    by (simp add: flaky_providers_def TomTomAPI_get_data_def WeatherAPI_get_data_def)
  from optimize_loop_Cons_Inr[OF this, of "[]" "[]"] show ?thesis
    by (simp add: optimize_route_def)
qed

section \<open>The emission formula\<close>



section \<open>The weather multiplier\<close>

text \<open>
  Claim C6. The weather multiplier starts at 1.0, is multiplied by 1.10 when
  \<open>precipitation > 0\<close> and by 1.15 when \<open>wind_speed > 20\<close>; the two factors compose by
  multiplication. For precipitation 5 and wind speed 25 the multiplier applied to the
  base emission is the product of the doubles 1.10 and 1.15, which is the double written
  1.265; for precipitation 0 and wind speed 0 it is 1.0; missing keys count as 0.
\<close>

theorem weather_factor_composes:
  "(float_dict wc \<longrightarrow> weather_factor wc = Inr (spec_weather_multiplier wc))
   \<and> (float_dict wc \<and> metric wc ''precipitation'' = 5 \<and> metric wc ''wind_speed'' = 25 \<longrightarrow>
        weather_factor wc = Inr (fl_round (253 / 200))
        \<and> fl_round (253 / 200) = fmul (fl_round (11 / 10)) (fl_round (115 / 100)))
   \<and> (float_dict wc \<and> metric wc ''precipitation'' = 5 \<and> metric wc ''wind_speed'' = 25
        \<and> load_factor v = Inr lfac \<longrightarrow>
        calculate_emissions v d wc
          = Inr (fmul (fmul (base_emission v d) (fl_round (253 / 200))) lfac))
   \<and> (float_dict wc \<and> metric wc ''precipitation'' = 0 \<and> metric wc ''wind_speed'' = 0 \<longrightarrow>
        weather_factor wc = Inr 1)
   \<and> weather_factor (JDict []) = Inr 1"
proof -
  have both: "spec_weather_multiplier wc = fl_round (253 / 200)"
    if "metric wc ''precipitation'' = 5" "metric wc ''wind_speed'' = 25"
    using that
    by (simp add: spec_weather_multiplier_def fmul_one_left fmul_def fl_round_idem multiplier_1265)
  have none: "spec_weather_multiplier wc = 1"
    if "metric wc ''precipitation'' = 0" "metric wc ''wind_speed'' = 0"
    using that by (simp add: spec_weather_multiplier_def)
  have prod: "fl_round (253 / 200) = fmul (fl_round (11 / 10)) (fl_round (115 / 100))"
    by (simp add: fmul_def multiplier_1265)
  have empty: "weather_factor (JDict []) = Inr 1"
    by (simp add: weather_factor_def)
  show ?thesis
    using both none prod empty
    by (auto simp add: weather_factor_float_dict calculate_emissions_split)
qed

theorem weather_factor_composes_witness:
  "weather_factor (JDict [(''precipitation'', JNum 5), (''wind_speed'', JNum 25)])
     = Inr (fl_round (253 / 200))
   \<and> weather_factor (JDict [(''precipitation'', JNum 0), (''wind_speed'', JNum 0)]) = Inr 1
   \<and> calculate_emissions diesel_truck 100
        (JDict [(''precipitation'', JNum 5), (''wind_speed'', JNum 25)])
      = Inr (fmul (fmul (base_emission diesel_truck 100) (fl_round (253 / 200))) 1)"
proof (intro conjI)
  let ?w = "JDict [(''precipitation'', JNum 5), (''wind_speed'', JNum 25)]"
  show "weather_factor ?w = Inr (fl_round (253 / 200))"
    using weather_factor_composes[of ?w, THEN conjunct2, THEN conjunct1] by simp
  show "weather_factor (JDict [(''precipitation'', JNum 0), (''wind_speed'', JNum 0)]) = Inr 1"
    using weather_factor_composes[of "JDict [(''precipitation'', JNum 0), (''wind_speed'', JNum 0)]",
        THEN conjunct2, THEN conjunct2, THEN conjunct2, THEN conjunct1] by simp
  have "load_factor diesel_truck = Inr 1"
    by (simp add: diesel_truck_def load_factor_def fdiv_def fl_round_zero fmul_zero_left fadd_def
        fl_round_one)
  then show "calculate_emissions diesel_truck 100 ?w
      = Inr (fmul (fmul (base_emission diesel_truck 100) (fl_round (253 / 200))) 1)"
    using weather_factor_composes[of ?w diesel_truck 1 100, THEN conjunct2, THEN conjunct2, THEN conjunct1]
    by simp
qed

section \<open>Monotonicity in the distance\<close>




section \<open>The division by the cargo capacity\<close>

text \<open>
  Claim C4 says that a zero or negative cargo capacity never leads to an unguarded
  division by zero: the calculator fails with a configuration error or takes the load
  multiplier to be 1.0. The code divides without looking at the capacity, so a capacity
  of zero raises \<open>ZeroDivisionError\<close>.
\<close>

theorem zero_capacity_counterexample:
  "calculate_emissions (diesel_truck\<lparr>cargo_capacity := 0\<rparr>) 100 (JDict [])
     = Inl ZeroDivisionError"
  by (simp add: calculate_emissions_def diesel_truck_def weather_factor_def load_factor_def fdiv_def)

text \<open>
  Claim C4, amended. For every weather mapping, a vehicle whose cargo capacity is zero
  makes \<open>calculate_emissions\<close> raise \<open>ZeroDivisionError\<close>; a vehicle whose cargo capacity
  is negative raises nothing, and its load multiplier is computed as for any other
  capacity, \<open>1.0 + (current_load / cargo_capacity) * 0.2\<close>.
\<close>

theorem calculate_emissions_unguarded_division:
  "float_dict wc \<Longrightarrow>
     (cargo_capacity v = 0 \<longrightarrow> calculate_emissions v d wc = Inl ZeroDivisionError)
     \<and> (cargo_capacity v < 0 \<longrightarrow>
          calculate_emissions v d wc =
            Inr (fmul (fmul (base_emission v d) (spec_weather_multiplier wc))
                      (fadd 1 (fmul (fl_round (current_load v / cargo_capacity v))
                                    (fl_round (2 / 10))))))"
  by (simp add: calculate_emissions_def weather_factor_float_dict load_factor_def fdiv_def)

theorem calculate_emissions_unguarded_division_witness:
  "float_dict (JDict [(''wind_speed'', JNum 25)])
   \<and> calculate_emissions (diesel_truck\<lparr>cargo_capacity := 0\<rparr>) 100
        (JDict [(''wind_speed'', JNum 25)]) = Inl ZeroDivisionError
   \<and> calculate_emissions negative_capacity_truck 100 (JDict [(''wind_speed'', JNum 25)])
       = Inr (fmul (fmul (base_emission negative_capacity_truck 100)
                         (spec_weather_multiplier (JDict [(''wind_speed'', JNum 25)])))
                   (fadd 1 (fmul (fl_round (1000 / - 100)) (fl_round (2 / 10)))))"
proof -
  have f: "float_dict (JDict [(''wind_speed'', JNum 25)])" by simp
  show ?thesis
    using calculate_emissions_unguarded_division[OF f, of "diesel_truck\<lparr>cargo_capacity := 0\<rparr>" 100]
      calculate_emissions_unguarded_division[OF f, of negative_capacity_truck 100]
    by (simp add: diesel_truck_def negative_capacity_truck_def)
qed

section \<open>Totals of a route\<close>

text \<open>
  Claim C2. For every route that \<open>optimize_route\<close> returns, the total distance is the sum
  of the distances of its segments, the total duration the sum of their durations and the
  total emissions the sum of their emissions (Python's \<open>sum\<close>, compared with \<open>==\<close>).
\<close>

theorem route_totals_are_segment_sums:
  assumes "fst (optimize_route P v s ds) = Inr routes" "r \<in> set routes"
  shows "total_distance r = py_sum (map distance (segments r))
         \<and> total_duration r = py_sum (map duration (segments r))
         \<and> total_emissions r = py_sum (map emissions (segments r))"
proof -
  from optimize_route_each[OF assms] obtain cur d td wd where
    "make_route v cur d td wd = Inr r" by blast
  from make_route_Inr[OF this] obtain seg l t where
    seg: "segments r = [seg]" "total_distance r = distance seg"
      "total_duration r = duration seg" "total_emissions r = emissions seg"
    and d: "div_num l 1000 = Inr (distance seg)" "div_num t 60 = Inr (duration seg)"
      "is_double (emissions seg)"
    by blast
  have "is_double (distance seg)" "is_double (duration seg)"
    using d(1,2) by (auto dest: div_num_is_double)
  with d(3) seg show ?thesis by (simp only: list.map py_sum_single)
qed

theorem route_totals_are_segment_sums_witness:
  "\<exists>routes. fst (optimize_route simulated_providers diesel_truck depot [stop_a, stop_b]) = Inr routes
     \<and> routes \<noteq> []
     \<and> (\<forall>r\<in>set routes. total_distance r = py_sum (map distance (segments r))
            \<and> total_duration r = py_sum (map duration (segments r))
            \<and> total_emissions r = py_sum (map emissions (segments r)))"
proof -
  have "\<exists>routes. fst (optimize_loop simulated_providers diesel_truck depot [stop_a, stop_b] [] [])
          = Inr routes"
    by (rule optimize_loop_total)
      (simp_all add: simulated_providers_def TomTomAPI_get_data_def WeatherAPI_get_data_def
        traffic_ok_simulated weather_ok_simulated diesel_truck_def)
  then obtain routes where
    r: "fst (optimize_route simulated_providers diesel_truck depot [stop_a, stop_b]) = Inr routes"
    by (auto simp: optimize_route_def)
  from optimize_loop_success[OF r[unfolded optimize_route_def]]
  have "routes \<noteq> []" by auto
  with r route_totals_are_segment_sums[OF r] show ?thesis by blast
qed

section \<open>Order of lookups and routes\<close>



section \<open>Malformed responses\<close>

text \<open>
  Claim C5 says that a malformed provider response makes \<open>optimize_route\<close> fail with a
  specific \<open>DataFormatError\<close>, not with an unrelated index or key error. The code
  subscripts the response directly; a traffic response without a \<open>routes\<close> entry raises
  the builtin \<open>KeyError\<close>.
\<close>

theorem missing_routes_counterexample:
  "optimize_route no_routes_providers diesel_truck depot [stop_a]
     = (Inl KeyError, [TrafficCall depot stop_a, WeatherCall stop_a])"
proof -
  have "make_route diesel_truck depot stop_a (traffic_api no_routes_providers [] depot stop_a)
          (weather_api no_routes_providers ([] @ [TrafficCall depot stop_a]) stop_a) = Inl KeyError"
    by (simp add: no_routes_providers_def TomTomAPI_get_data_def make_route_def summary_field_def)
  from optimize_loop_Cons_Inl[OF this, of "[]" "[]"] show ?thesis
    by (simp add: optimize_route_def)
qed

text \<open>
  Claim C5, amended. Suppose the destinations before \<open>d\<close> were processed without error.
  If the loop body raises an error on the responses for \<open>d\<close>, then \<open>optimize_route\<close> raises
  that same error to its caller right after the two lookups for \<open>d\<close>: no route is
  returned and no fallback value is substituted. The error is Python's own:
  \<open>KeyError\<close> when the traffic response has no \<open>routes\<close> entry, \<open>IndexError\<close> when its
  routes list is empty, \<open>KeyError\<close> when the first route has no \<open>summary\<close> key, and
  \<open>KeyError\<close> when the weather response has no \<open>weather\<close> entry.
\<close>

theorem malformed_response_raises:
  assumes "optimize_route P v s pre = (Inr routes, calls)"
    and "cur = last (s # pre)"
    and "td = traffic_api P calls cur d"
    and "wd = weather_api P (calls @ [TrafficCall cur d]) d"
  shows "(make_route v cur d td wd = Inl e \<longrightarrow>
            optimize_route P v s (pre @ d # post)
              = (Inl e, calls @ [TrafficCall cur d, WeatherCall d]))
       \<and> (td = JDict kvs \<and> map_of kvs ''routes'' = None \<longrightarrow>
            optimize_route P v s (pre @ d # post)
              = (Inl KeyError, calls @ [TrafficCall cur d, WeatherCall d]))
       \<and> (td = JDict kvs \<and> map_of kvs ''routes'' = Some (JList []) \<longrightarrow>
            optimize_route P v s (pre @ d # post)
              = (Inl IndexError, calls @ [TrafficCall cur d, WeatherCall d]))
       \<and> (td = JDict kvs \<and> map_of kvs ''routes'' = Some (JList (JDict r0 # rs))
            \<and> map_of r0 ''summary'' = None \<longrightarrow>
            optimize_route P v s (pre @ d # post)
              = (Inl KeyError, calls @ [TrafficCall cur d, WeatherCall d]))
       \<and> (traffic_ok td \<and> wd = JDict wkvs \<and> map_of wkvs ''weather'' = None \<longrightarrow>
            optimize_route P v s (pre @ d # post)
              = (Inl KeyError, calls @ [TrafficCall cur d, WeatherCall d]))"
proof -
  have surf: "optimize_route P v s (pre @ d # post)
                = (Inl x, calls @ [TrafficCall cur d, WeatherCall d])"
    if "make_route v cur d td wd = Inl x" for x
  proof -
    have "optimize_route P v s (pre @ d # post) = optimize_loop P v cur (d # post) routes calls"
      using optimize_loop_append[OF assms(1)[unfolded optimize_route_def]]
      by (simp add: optimize_route_def assms(2))
    also have "\<dots> = (Inl x, calls @ [TrafficCall cur d, WeatherCall d])"
      using that unfolding assms(3,4) by (rule optimize_loop_Cons_Inl)
    finally show ?thesis .
  qed
  show ?thesis
  proof (intro conjI impI; (elim conjE)?)
    assume "make_route v cur d td wd = Inl e"
    then show "optimize_route P v s (pre @ d # post)
              = (Inl e, calls @ [TrafficCall cur d, WeatherCall d])"
      by (rule surf)
  next
    assume "td = JDict kvs" "map_of kvs ''routes'' = None"
    then show "optimize_route P v s (pre @ d # post)
              = (Inl KeyError, calls @ [TrafficCall cur d, WeatherCall d])"
      by (intro surf make_route_error_shapes(1))
  next
    assume "td = JDict kvs" "map_of kvs ''routes'' = Some (JList [])"
    then show "optimize_route P v s (pre @ d # post)
              = (Inl IndexError, calls @ [TrafficCall cur d, WeatherCall d])"
      by (intro surf make_route_error_shapes(2))
  next
    assume "td = JDict kvs" "map_of kvs ''routes'' = Some (JList (JDict r0 # rs))"
      "map_of r0 ''summary'' = None"
    then show "optimize_route P v s (pre @ d # post)
              = (Inl KeyError, calls @ [TrafficCall cur d, WeatherCall d])"
      by (intro surf make_route_error_shapes(3))
  next
    assume "traffic_ok td" "wd = JDict wkvs" "map_of wkvs ''weather'' = None"
    then show "optimize_route P v s (pre @ d # post)
              = (Inl KeyError, calls @ [TrafficCall cur d, WeatherCall d])"
      by (intro surf make_route_no_weather)
  qed
qed

theorem malformed_response_raises_witness:
  "optimize_route flaky_providers diesel_truck depot [stop_a]
     = (Inr [first_leg], [TrafficCall depot stop_a, WeatherCall stop_a])
   \<and> optimize_route flaky_providers diesel_truck depot [stop_a, stop_b]
     = (Inl IndexError, [TrafficCall depot stop_a, WeatherCall stop_a,
                         TrafficCall stop_a stop_b, WeatherCall stop_b])"
proof -
  let ?calls = "[TrafficCall depot stop_a, WeatherCall stop_a]"
  have run: "optimize_route flaky_providers diesel_truck depot [stop_a] = (Inr [first_leg], ?calls)"
    by (rule first_leg_run)
  have cur: "stop_a = last [depot, stop_a]" by simp
  have td: "JDict [(''routes'', JList [])] = traffic_api flaky_providers ?calls stop_a stop_b"
    by (simp add: flaky_providers_def TomTomAPI_get_data_def)
  have wd: "weather_api flaky_providers (?calls @ [TrafficCall stop_a stop_b]) stop_b
              = weather_api flaky_providers (?calls @ [TrafficCall stop_a stop_b]) stop_b"
    by simp
  from malformed_response_raises[OF run cur td wd,
      where kvs = "[(''routes'', JList [])]" and post = "[]",
      THEN conjunct2, THEN conjunct2, THEN conjunct1]
  have "optimize_route flaky_providers diesel_truck depot ([stop_a] @ stop_b # [])
          = (Inl IndexError, ?calls @ [TrafficCall stop_a stop_b, WeatherCall stop_b])"
    by simp
  with run show ?thesis by simp
qed

section \<open>The fallback response\<close>



section \<open>The route summary\<close>

text \<open>
  Claim C10. For every route whose weather and air-quality mappings are present (each a
  mapping from names to numbers), \<open>get_route_summary\<close> returns the three totals of the
  route unchanged, a weather alert exactly when \<open>precipitation > 10\<close> or
  \<open>wind_speed > 30\<close>, and an air-quality alert exactly when \<open>aqi > 100\<close>, a missing key
  counting as 0.
\<close>

theorem get_route_summary_correct:
  assumes "float_dict (weather_conditions route)" "float_dict (air_quality route)"
  shows "get_route_summary route =
           \<lparr>total_distance_km = total_distance route,
            total_duration_mins = total_duration route,
            total_emissions_kg = total_emissions route,
            weather_alerts = (10 < metric (weather_conditions route) ''precipitation''
                              \<or> 30 < metric (weather_conditions route) ''wind_speed''),
            air_quality_alerts = (100 < metric (air_quality route) ''aqi'')\<rparr>"
  by (simp add: get_route_summary_def try_summary_def weather_alerts_float_dict[OF assms(1)]
      air_quality_alerts_float_dict[OF assms(2)])

theorem get_route_summary_correct_witness:
  "float_dict (weather_conditions stormy_route) \<and> float_dict (air_quality stormy_route)
   \<and> get_route_summary stormy_route =
       \<lparr>total_distance_km = 50, total_duration_mins = 60, total_emissions_kg = 45,
        weather_alerts = True, air_quality_alerts = False\<rparr>"
proof -
  have w: "float_dict (weather_conditions stormy_route)" by (simp add: stormy_route_def)
  have a: "float_dict (air_quality stormy_route)" by (simp add: stormy_route_def)
  show ?thesis
    using w a get_route_summary_correct[OF w a] by (simp add: stormy_route_def)
qed

section \<open>Empty input\<close>

text \<open>
  Claim C9. For every vehicle and start location, \<open>optimize_route\<close> on an empty list of
  destinations returns the empty list of routes and calls neither provider.
\<close>

theorem optimize_route_empty:
  "optimize_route P vehicle start_location [] = (Inr [], [])"
  by (simp add: optimize_route_def)

end
